theory Spec2Isabelle
  imports Complex_Main "HOL-Library.Word" "HOL-Library.AList" "HOL-Library.Sublist"
begin

section \<open>JavaScript strings\<close>

text \<open>
  A JavaScript string is a sequence of UTF-16 code units. The regular expressions of the
  program carry no \<open>u\<close> flag, so they test and consume one code unit at a time.
\<close>

type_synonym uchar = "16 word"
type_synonym jsstring = "uchar list"

definition str :: "string \<Rightarrow> jsstring" where
  "str s = map of_char s"

text \<open>\<open>String.prototype.includes\<close>.\<close>

fun js_includes :: "jsstring \<Rightarrow> jsstring \<Rightarrow> bool" where
  "js_includes [] pat = (pat = [])"
| "js_includes (c # cs) pat = (prefix pat (c # cs) \<or> js_includes cs pat)"

text \<open>\<open>String(n)\<close> for a non-negative integer: its decimal digits.\<close>

fun String_of :: "nat \<Rightarrow> jsstring" where
  "String_of n =
     (if n < 10 then [48 + of_nat n] else String_of (n div 10) @ [48 + of_nat (n mod 10)])"

declare String_of.simps [simp del]

section \<open>Regular expressions\<close>

text \<open>
  A matcher decides whether its pattern matches at the very start of a string and, if so,
  returns the matched text (\<open>match[0]\<close>) with the capture groups. \<open>scan\<close> is the
  behaviour of a pattern with the \<open>g\<close> flag, shared by the \<open>exec\<close> loop and by
  \<open>String.replace\<close>: the leftmost match is taken, the search resumes right after it (one
  code unit further when the match is empty), and a position without a match is passed over.
\<close>

datatype 'm seg = Lit uchar | Hit 'm

type_synonym 'g matcher = "jsstring \<Rightarrow> (jsstring \<times> 'g) option"

fun scan :: "'g matcher \<Rightarrow> jsstring \<Rightarrow> (jsstring \<times> 'g) seg list" where
  "scan m [] = (case m [] of Some hit \<Rightarrow> [Hit hit] | None \<Rightarrow> [])"
| "scan m (c # cs) =
     (case m (c # cs) of
        None \<Rightarrow> Lit c # scan m cs
      | Some (w, g) \<Rightarrow>
          if w = [] then Hit (w, g) # Lit c # scan m cs
          else Hit (w, g) # scan m (drop (length w) (c # cs)))"

text \<open>The matches that a \<open>while ((match = re.exec(s)) !== null)\<close> loop visits, in order.\<close>

primrec hits :: "'m seg list \<Rightarrow> 'm list" where
  "hits [] = []"
| "hits (x # xs) = (case x of Lit c \<Rightarrow> hits xs | Hit h \<Rightarrow> h # hits xs)"

definition exec_all :: "'g matcher \<Rightarrow> jsstring \<Rightarrow> (jsstring \<times> 'g) list" where
  "exec_all m s = hits (scan m s)"

text \<open>\<open>s.replace(re, callback)\<close> for a pattern with the \<open>g\<close> flag.\<close>

definition render :: "(jsstring \<times> 'g \<Rightarrow> jsstring) \<Rightarrow> (jsstring \<times> 'g) seg \<Rightarrow> jsstring" where
  "render cb x = (case x of Lit c \<Rightarrow> [c] | Hit h \<Rightarrow> cb h)"

definition replace_g :: "'g matcher \<Rightarrow> (jsstring \<times> 'g \<Rightarrow> jsstring) \<Rightarrow> jsstring \<Rightarrow> jsstring" where
  "replace_g m cb s = concat (map (render cb) (scan m s))"

text \<open>\<open>s.match(re)\<close> and \<open>s.replace(re, callback)\<close> for a pattern without the \<open>g\<close> flag:
  only the leftmost match counts.\<close>

fun first_match :: "'g matcher \<Rightarrow> jsstring \<Rightarrow> (jsstring \<times> 'g) option" where
  "first_match m [] = m []"
| "first_match m (c # cs) =
     (case m (c # cs) of Some h \<Rightarrow> Some h | None \<Rightarrow> first_match m cs)"

fun replace_first :: "'g matcher \<Rightarrow> (jsstring \<times> 'g \<Rightarrow> jsstring) \<Rightarrow> jsstring \<Rightarrow> jsstring" where
  "replace_first m cb [] = (case m [] of Some h \<Rightarrow> cb h | None \<Rightarrow> [])"
| "replace_first m cb (c # cs) =
     (case m (c # cs) of
        Some (w, g) \<Rightarrow> cb (w, g) @ drop (length w) (c # cs)
      | None \<Rightarrow> c # replace_first m cb cs)"

subsection \<open>The patterns of the program\<close>

text \<open>The class \<open>\s\<close> of ECMAScript: white space and line terminators.\<close>

definition is_space :: "uchar \<Rightarrow> bool" where
  "is_space c \<longleftrightarrow>
     c = 0x09 \<or> c = 0x0A \<or> c = 0x0B \<or> c = 0x0C \<or> c = 0x0D \<or> c = 0x20 \<or> c = 0xA0 \<or>
     c = 0x1680 \<or> (0x2000 \<le> c \<and> c \<le> 0x200A) \<or> c = 0x2028 \<or> c = 0x2029 \<or>
     c = 0x202F \<or> c = 0x205F \<or> c = 0x3000 \<or> c = 0xFEFF"

text \<open>The characters that \<open>.\<close> does not match.\<close>

definition line_terminator :: "uchar \<Rightarrow> bool" where
  "line_terminator c \<longleftrightarrow> c = 0x0A \<or> c = 0x0D \<or> c = 0x2028 \<or> c = 0x2029"

text \<open>
  \<open>[\s\S]*?\<close> followed by a literal, and \<open>[^>]*\<close> followed by \<open>>\<close>: the text before
  the first occurrence of the literal, and the text after it.
\<close>

fun split_at_first :: "jsstring \<Rightarrow> jsstring \<Rightarrow> (jsstring \<times> jsstring) option" where
  "split_at_first lit [] = (if lit = [] then Some ([], []) else None)"
| "split_at_first lit (c # cs) =
     (if prefix lit (c # cs) then Some ([], drop (length lit) (c # cs))
      else map_option (\<lambda>(before, after). (c # before, after)) (split_at_first lit cs))"

text \<open>A literal such as \<open>/&lt;/\<close>.\<close>

definition m_lit :: "jsstring \<Rightarrow> unit matcher" where
  "m_lit lit s = (if prefix lit s then Some (lit, ()) else None)"

text \<open>A one-character class such as \<open>/[<>&'"]/\<close>; the group is the character.\<close>

definition m_class :: "(uchar \<Rightarrow> bool) \<Rightarrow> uchar matcher" where
  "m_class P s = (case s of [] \<Rightarrow> None | c # cs \<Rightarrow> if P c then Some ([c], c) else None)"

text \<open>\<open>opening([\s\S]*?)closing\<close> for two literals, as in \<open>/<si>([\s\S]*?)<\/si>/\<close> and
  \<open>/<rPh>[\s\S]*?<\/rPh>/\<close>; the group is the text between them.\<close>

definition m_block :: "jsstring \<Rightarrow> jsstring \<Rightarrow> jsstring matcher" where
  "m_block opening closing s =
     (if prefix opening s then
        (case split_at_first closing (drop (length opening) s) of
           None \<Rightarrow> None
         | Some (inner, rest) \<Rightarrow> Some (opening @ inner @ closing, inner))
      else None)"

text \<open>\<open><tagName(?:\s[^>]*)?>\<close> at the start of a string: the tag's text and what follows it.\<close>

definition open_tag :: "jsstring \<Rightarrow> jsstring \<Rightarrow> (jsstring \<times> jsstring) option" where
  "open_tag tagName s =
     (if prefix (str ''<'' @ tagName) s then
        (case drop (Suc (length tagName)) s of
           [] \<Rightarrow> None
         | c # r \<Rightarrow>
             if is_space c then
               (case split_at_first (str ''>'') r of
                  None \<Rightarrow> None
                | Some (attrs, rest) \<Rightarrow> Some (str ''<'' @ tagName @ c # attrs @ str ''>'', rest))
             else if c = 0x3E then Some (str ''<'' @ tagName @ str ''>'', r)
             else None)
      else None)"

text \<open>\<open>(<tagName(?:\s[^>]*)?>)([\s\S]*?)<\/tagName>\<close>; the groups are the opening tag and
  the content. The tag names that the program passes (\<open>t\<close> and \<open>a:t\<close>) hold no character that
  is special in a pattern, so the name stands for itself.\<close>

definition m_tag :: "jsstring \<Rightarrow> (jsstring \<times> jsstring) matcher" where
  "m_tag tagName s =
     (case open_tag tagName s of
        None \<Rightarrow> None
      | Some (openTag, r) \<Rightarrow>
          (case split_at_first (str ''</'' @ tagName @ str ''>'') r of
             None \<Rightarrow> None
           | Some (inner, rest) \<Rightarrow>
               Some (openTag @ inner @ str ''</'' @ tagName @ str ''>'', (openTag, inner))))"

text \<open>\<open>/<sheet\s+[^>]*>/\<close>.\<close>

definition m_sheet :: "unit matcher" where
  "m_sheet s =
     (if prefix (str ''<sheet'') s then
        (case drop 6 s of
           [] \<Rightarrow> None
         | c # r \<Rightarrow>
             if is_space c then
               (case split_at_first (str ''>'') r of
                  None \<Rightarrow> None
                | Some (attrs, rest) \<Rightarrow> Some (str ''<sheet'' @ c # attrs @ str ''>'', ()))
             else None)
      else None)"

text \<open>\<open>/name="([^"]+)"/\<close>; the group is the attribute's value.\<close>

definition m_name :: "jsstring matcher" where
  "m_name s =
     (if prefix (str ''name=\"'') s then
        (case split_at_first (str ''\"'') (drop 6 s) of
           None \<Rightarrow> None
         | Some (v, rest) \<Rightarrow>
             if v = [] then None else Some (str ''name=\"'' @ v @ str ''\"'', v))
      else None)"

text \<open>\<open>.*\<close> followed by a literal, at the start of a string.\<close>

fun dot_star_lit :: "jsstring \<Rightarrow> jsstring \<Rightarrow> bool" where
  "dot_star_lit lit [] = (lit = [])"
| "dot_star_lit lit (c # cs) =
     (prefix lit (c # cs) \<or> (\<not> line_terminator c \<and> dot_star_lit lit cs))"

text \<open>\<open>path.match(/prefix.*\.xml/)\<close> is not null: the pattern is not anchored.\<close>

fun path_matches :: "jsstring \<Rightarrow> jsstring \<Rightarrow> bool" where
  "path_matches pre [] = False"
| "path_matches pre (c # cs) =
     ((prefix pre (c # cs) \<and> dot_star_lit (str ''.xml'') (drop (length pre) (c # cs)))
      \<or> path_matches pre cs)"

definition is_worksheet :: "jsstring \<Rightarrow> bool" where
  "is_worksheet path = path_matches (str ''xl/worksheets/sheet'') path"

definition is_drawing :: "jsstring \<Rightarrow> bool" where
  "is_drawing path = path_matches (str ''xl/drawings/drawing'') path"

definition is_chart :: "jsstring \<Rightarrow> bool" where
  "is_chart path = path_matches (str ''xl/charts/chart'') path"

section \<open>geminiService.ts\<close>

text \<open>
  The remote service is outside the program. One call of \<open>generateContent\<close> either
  rejects with an error, of which \<open>translateBatch\<close> reads \<open>JSON.stringify(errBody)\<close> and
  the code \<open>errBody?.error?.code || errBody?.code || errBody?.status\<close>, or resolves with
  a response, of which it reads \<open>response.text\<close> and what \<open>JSON.parse\<close> makes of that
  text: a syntax error, a value that is not an array, or an array of items. An item is
  \<open>None\<close> when it is falsy; its fields are strings, as the response schema and the
  declared type have them, or undefined.
\<close>

datatype code_val = NoCode | NumCode nat | StrCode jsstring

record api_error =
  err_body :: jsstring
  err_code :: code_val

record item =
  item_id :: "jsstring option"
  translatedText :: "jsstring option"

datatype parsed = SyntaxError | NotArray | Items "item option list"

datatype reply = Rejects api_error | Resolves "jsstring option" parsed

text \<open>What the program throws.\<close>

datatype failure =
    ApiKeyMissing | EmptyResponse | QuotaExceeded | RateLimitExceeded
  | Upstream api_error | NoFileLoaded

definition maxRetries :: nat where
  "maxRetries = 5"

text \<open>The local \<open>translationMap\<close> of \<open>translateBatch\<close>, filled by \<open>parsed.forEach\<close>.\<close>

definition collect :: "item option list \<Rightarrow> (jsstring \<times> jsstring option) list" where
  "collect its =
     fold (\<lambda>it m. case it of
                     None \<Rightarrow> m
                   | Some i \<Rightarrow> (case item_id i of
                                None \<Rightarrow> m
                              | Some k \<Rightarrow> AList.update k (translatedText i) m))
          its []"

text \<open>\<open>texts.map((_, index) => translationMap.get(String(index)) || texts[index])\<close>: an
  undefined or empty translation is falsy.\<close>

definition map_back :: "jsstring list \<Rightarrow> (jsstring \<times> jsstring option) list \<Rightarrow> jsstring list" where
  "map_back texts m =
     map (\<lambda>index. case map_of m (String_of index) of
                    Some (Some t) \<Rightarrow> if t = [] then texts ! index else t
                  | _ \<Rightarrow> texts ! index)
         [0..<length texts]"

text \<open>
  The \<open>while (attempt <= maxRetries)\<close> loop; \<open>svc attempt\<close> is what the service answers to
  the call of that attempt. The error for an empty response is thrown inside the \<open>try\<close>
  block, so the \<open>catch\<close> block sees it: it is an \<open>Error\<close> object without code whose
  JSON text is \<open>{}\<close>, neither a quota nor a rate-limit error, and is thrown again. The
  waiting time between attempts is not modelled.
\<close>

function attempts :: "(nat \<Rightarrow> reply) \<Rightarrow> jsstring list \<Rightarrow> nat \<Rightarrow> failure + jsstring list" where
  "attempts svc texts attempt =
     (if attempt \<le> maxRetries then
        (case svc attempt of
           Resolves jsonText p \<Rightarrow>
             if jsonText = None \<or> jsonText = Some [] then Inl EmptyResponse
             else (case p of
                     SyntaxError \<Rightarrow> Inr texts
                   | NotArray \<Rightarrow> Inr texts
                   | Items its \<Rightarrow> Inr (map_back texts (collect its)))
         | Rejects e \<Rightarrow>
             let isQuotaExhausted =
                   (js_includes (err_body e) (str ''RESOURCE_EXHAUSTED'')
                    \<or> err_code e = StrCode (str ''RESOURCE_EXHAUSTED''));
                 isRateLimit = (js_includes (err_body e) (str ''429'') \<or> err_code e = NumCode 429);
                 isOverloaded = (err_code e = NumCode 503)
             in if isQuotaExhausted then Inl QuotaExceeded
                else if (isRateLimit \<or> isOverloaded) \<and> attempt < maxRetries
                     then attempts svc texts (attempt + 1)
                else if isRateLimit then Inl RateLimitExceeded
                else Inl (Upstream e))
      else Inr texts)"
  by pat_completeness auto
termination
  by (relation "measure (\<lambda>(svc, texts, attempt). Suc maxRetries - attempt)")
     (auto simp: maxRetries_def)

declare attempts.simps [simp del]

definition translateBatch :: "bool \<Rightarrow> (nat \<Rightarrow> reply) \<Rightarrow> jsstring list \<Rightarrow> failure + jsstring list" where
  "translateBatch api_key svc texts =
     (if \<not> api_key then Inl ApiKeyMissing else attempts svc texts 0)"

section \<open>excelService.ts\<close>

subsection \<open>hasJapanese, escapeXml, decodeXml\<close>

definition japanese :: "uchar \<Rightarrow> bool" where
  "japanese c \<longleftrightarrow>
     (0x3000 \<le> c \<and> c \<le> 0x303F) \<or> (0x3040 \<le> c \<and> c \<le> 0x309F) \<or>
     (0x30A0 \<le> c \<and> c \<le> 0x30FF) \<or> (0xFF00 \<le> c \<and> c \<le> 0xFF9F) \<or>
     (0x4E00 \<le> c \<and> c \<le> 0x9FAF) \<or> (0x3400 \<le> c \<and> c \<le> 0x4DBF)"

definition hasJapanese :: "jsstring \<Rightarrow> bool" where
  "hasJapanese text = list_ex japanese text"

definition xml_special :: "uchar \<Rightarrow> bool" where
  "xml_special c \<longleftrightarrow> c = 0x3C \<or> c = 0x3E \<or> c = 0x26 \<or> c = 0x27 \<or> c = 0x22"

definition escape_char :: "uchar \<Rightarrow> jsstring" where
  "escape_char c =
     (if c = 0x3C then str ''&lt;''
      else if c = 0x3E then str ''&gt;''
      else if c = 0x26 then str ''&amp;''
      else if c = 0x27 then str ''&apos;''
      else if c = 0x22 then str ''&quot;''
      else [c])"

definition escapeXml :: "jsstring \<Rightarrow> jsstring" where
  "escapeXml unsafe = replace_g (m_class xml_special) (\<lambda>(w, c). escape_char c) unsafe"

definition replace_lit :: "jsstring \<Rightarrow> jsstring \<Rightarrow> jsstring \<Rightarrow> jsstring" where
  "replace_lit lit rep s = replace_g (m_lit lit) (\<lambda>h. rep) s"

definition decodeXml :: "jsstring \<Rightarrow> jsstring" where
  "decodeXml text =
     replace_lit (str ''&quot;'') (str ''\"'')
       (replace_lit (str ''&apos;'') [0x27]
         (replace_lit (str ''&amp;'') (str ''&'')
           (replace_lit (str ''&gt;'') (str ''>'')
             (replace_lit (str ''&lt;'') (str ''<'') text))))"

subsection \<open>The processor and its package\<close>

text \<open>
  The archive is a JSZip object: a table of entries in insertion order, each name occurring
  once. A part is identified with the text that \<open>file.async('string')\<close> reads from it.
  \<open>zip.file(name)\<close> is \<open>map_of\<close>; \<open>zip.file(name, data)\<close> is \<open>AList.update\<close>, which
  replaces the content of an existing entry where it stands. \<open>uniqueStrings\<close> is a
  \<open>Set\<close> and \<open>translationMap\<close> a \<open>Map\<close>, both kept in insertion order as JavaScript
  does.
\<close>

type_synonym package = "(jsstring \<times> jsstring) list"

record ExcelProcessor =
  zipfile :: "package option"
  uniqueStrings :: "jsstring list"
  translationMap :: "(jsstring \<times> jsstring) list"

definition new_ExcelProcessor :: ExcelProcessor where
  "new_ExcelProcessor = \<lparr>zipfile = None, uniqueStrings = [], translationMap = []\<rparr>"

definition Set_add :: "jsstring list \<Rightarrow> jsstring \<Rightarrow> jsstring list" where
  "Set_add us x = (if x \<in> set us then us else us @ [x])"

subsection \<open>Extraction\<close>

text \<open>
  The text of one \<open><si>\<close> block. \<open>extractFromSharedStrings\<close> and
  \<open>replaceSharedStrings\<close> hold the same lines: phonetic guides are removed with
  \<open>/<rPh>[\s\S]*?<\/rPh>/g\<close>, then the contents of the \<open><t>\<close> elements are joined.
\<close>

definition si_fullText :: "jsstring \<Rightarrow> jsstring" where
  "si_fullText innerContent =
     (let cleanContent =
            replace_g (m_block (str ''<rPh>'') (str ''</rPh>'')) (\<lambda>h. []) innerContent
      in concat (map (\<lambda>(w, openTag, inner). inner) (exec_all (m_tag (str ''t'')) cleanContent)))"

definition m_si :: "jsstring matcher" where
  "m_si = m_block (str ''<si>'') (str ''</si>'')"

definition extractFromSharedStrings :: "jsstring \<Rightarrow> jsstring list \<Rightarrow> jsstring list" where
  "extractFromSharedStrings xml us =
     fold (\<lambda>(w, innerContent) us.
             let decoded = decodeXml (si_fullText innerContent)
             in if decoded \<noteq> [] \<and> hasJapanese decoded then Set_add us decoded else us)
          (exec_all m_si xml) us"

definition extractFromTag :: "jsstring \<Rightarrow> jsstring \<Rightarrow> jsstring list \<Rightarrow> jsstring list" where
  "extractFromTag xml tagName us =
     fold (\<lambda>(w, openTag, text) us.
             let decoded = decodeXml text
             in if decoded \<noteq> [] \<and> hasJapanese decoded then Set_add us decoded else us)
          (exec_all (m_tag tagName) xml) us"

definition extractFromSheetNames :: "jsstring \<Rightarrow> jsstring list \<Rightarrow> jsstring list" where
  "extractFromSheetNames xml us =
     fold (\<lambda>(tagContent, u) us.
             case first_match m_name tagContent of
               None \<Rightarrow> us
             | Some (w, name) \<Rightarrow>
                 let decoded = decodeXml name
                 in if hasJapanese decoded then Set_add us decoded else us)
          (exec_all m_sheet xml) us"

text \<open>
  \<open>extractStrings\<close> starts one task per part, in the order shared strings, worksheets,
  drawings, charts, workbook; the tasks are run here in the order in which they are started.
\<close>

definition extract_parts :: "(jsstring \<Rightarrow> bool) \<Rightarrow> jsstring \<Rightarrow> package \<Rightarrow> jsstring list \<Rightarrow> jsstring list" where
  "extract_parts sel tagName z us =
     fold (\<lambda>(path, xml) us. if sel path then extractFromTag xml tagName us else us) z us"

definition extractStrings :: "ExcelProcessor \<Rightarrow> ExcelProcessor" where
  "extractStrings p =
     (case zipfile p of
        None \<Rightarrow> p
      | Some z \<Rightarrow>
          let us0 = [];
              us1 = (case map_of z (str ''xl/sharedStrings.xml'') of
                       Some xml \<Rightarrow> extractFromSharedStrings xml us0 | None \<Rightarrow> us0);
              us2 = extract_parts is_worksheet (str ''t'') z us1;
              us3 = extract_parts is_drawing (str ''a:t'') z us2;
              us4 = extract_parts is_chart (str ''a:t'') z us3;
              us5 = (case map_of z (str ''xl/workbook.xml'') of
                       Some xml \<Rightarrow> extractFromSheetNames xml us4 | None \<Rightarrow> us4)
          in p\<lparr>uniqueStrings := us5\<rparr>)"

subsection \<open>Rehydration\<close>

text \<open>The callbacks are the arrow functions passed to \<open>replace\<close>, named after the text
  they rewrite.\<close>

definition si_callback :: "(jsstring \<times> jsstring) list \<Rightarrow> jsstring \<times> jsstring \<Rightarrow> jsstring" where
  "si_callback tm =
     (\<lambda>(match, innerContent).
        let decodedKey = decodeXml (si_fullText innerContent)
        in case map_of tm decodedKey of
             Some translated \<Rightarrow> str ''<si><t>'' @ escapeXml translated @ str ''</t></si>''
           | None \<Rightarrow> match)"


definition tag_callback ::
  "(jsstring \<times> jsstring) list \<Rightarrow> jsstring \<Rightarrow> jsstring \<times> jsstring \<times> jsstring \<Rightarrow> jsstring" where
  "tag_callback tm tagName =
     (\<lambda>(match, openTag, innerContent).
        let decodedKey = decodeXml innerContent
        in case map_of tm decodedKey of
             Some translated \<Rightarrow> openTag @ escapeXml translated @ str ''</'' @ tagName @ str ''>''
           | None \<Rightarrow> match)"


text \<open>The class \<open>[\\/?*[\]:]\<close>.\<close>

definition forbidden :: "uchar \<Rightarrow> bool" where
  "forbidden c \<longleftrightarrow>
     c = 0x5C \<or> c = 0x2F \<or> c = 0x3F \<or> c = 0x2A \<or> c = 0x5B \<or> c = 0x5D \<or> c = 0x3A"

text \<open>\<open>translated.replace(/[\\/?*[\]:]/g, '_').substring(0, 31)\<close>.\<close>

definition sanitize :: "jsstring \<Rightarrow> jsstring" where
  "sanitize translated = take 31 (replace_g (m_class forbidden) (\<lambda>h. str ''_'') translated)"

definition name_callback :: "(jsstring \<times> jsstring) list \<Rightarrow> jsstring \<times> jsstring \<Rightarrow> jsstring" where
  "name_callback tm =
     (\<lambda>(match, originalName).
        let decodedKey = decodeXml originalName
        in case map_of tm decodedKey of
             Some translated \<Rightarrow> str ''name=\"'' @ escapeXml (sanitize translated) @ str ''\"''
           | None \<Rightarrow> match)"

definition sheet_callback :: "(jsstring \<times> jsstring) list \<Rightarrow> jsstring \<times> unit \<Rightarrow> jsstring" where
  "sheet_callback tm = (\<lambda>(sheetTag, u). replace_first m_name (name_callback tm) sheetTag)"

definition replaceSheetNames :: "(jsstring \<times> jsstring) list \<Rightarrow> jsstring \<Rightarrow> jsstring" where
  "replaceSheetNames tm xml = replace_g m_sheet (sheet_callback tm) xml"






subsection \<open>Batched translation\<close>

datatype status = Idle | Parsing | Translating | Rebuilding | Complete | Error

record TranslationProgress =
  status :: status
  currentChunk :: nat
  totalChunks :: nat
  message :: "jsstring option"
  error :: "jsstring option"

text \<open>
  The environment of a run: whether \<open>process.env.API_KEY\<close> is set, and what the service
  answers to each attempt of the call for each batch (numbered from 0).
\<close>

record env =
  api_key :: bool
  service :: "nat \<Rightarrow> nat \<Rightarrow> reply"

text \<open>
  A run of \<open>processTranslations\<close>: the processor (whose \<open>translationMap\<close> the run
  mutates), the states passed to \<open>onProgress\<close>, the arguments of the calls of
  \<open>translateBatch\<close>, and the error thrown, if any.
\<close>

record run =
  proc :: ExcelProcessor
  progress :: "TranslationProgress list"
  calls :: "jsstring list list"
  thrown :: "failure option"

definition BATCH_SIZE :: nat where
  "BATCH_SIZE = 20"


text \<open>\<open>xs.slice(start, end)\<close> for \<open>0 \<le> start \<le> end\<close>.\<close>

definition slice :: "'a list \<Rightarrow> nat \<Rightarrow> nat \<Rightarrow> 'a list" where
  "slice xs start end = take (end - start) (drop start xs)"

text \<open>\<open>chunk.forEach((original, index) => translationMap.set(original, translatedChunk[index]))\<close>;
  \<open>translateBatch\<close> returns as many strings as it is given, so the index is in range.\<close>

definition store_chunk ::
  "jsstring list \<Rightarrow> jsstring list \<Rightarrow> (jsstring \<times> jsstring) list \<Rightarrow> (jsstring \<times> jsstring) list" where
  "store_chunk chunk translatedChunk tm =
     fold (\<lambda>(original, index) tm. AList.update original (translatedChunk ! index) tm)
          (zip chunk [0..<length chunk]) tm"

definition translating :: "nat \<Rightarrow> nat \<Rightarrow> TranslationProgress" where
  "translating i nChunks =
     \<lparr>status = Translating, currentChunk = i + 1, totalChunks = nChunks,
      message = Some (str ''Translating batch '' @ String_of (i + 1) @ str '' of ''
                      @ String_of nChunks @ str ''...''),
      error = None\<rparr>"

text \<open>
  One round of the \<open>for\<close> loop: the progress report, the call of \<open>translateBatch\<close>,
  and either the positional assignment of its result or the error thrown again.
\<close>

definition batch_body :: "env \<Rightarrow> jsstring list \<Rightarrow> nat \<Rightarrow> nat \<Rightarrow> run \<Rightarrow> run" where
  "batch_body e allStrings nChunks i r =
     (let start = i * BATCH_SIZE;
          end = start + BATCH_SIZE;
          chunk = slice allStrings start end;
          r1 = r\<lparr>progress := progress r @ [translating i nChunks],
                 calls := calls r @ [chunk]\<rparr>
      in case translateBatch (api_key e) (service e i) chunk of
           Inl err \<Rightarrow> r1\<lparr>thrown := Some err\<rparr>
         | Inr translatedChunk \<Rightarrow>
             r1\<lparr>proc := (proc r1)\<lparr>translationMap :=
                    store_chunk chunk translatedChunk (translationMap (proc r1))\<rparr>\<rparr>)"





section \<open>processFile\<close>




section \<open>Vocabulary of the properties\<close>

subsection \<open>Candidate strings\<close>

text \<open>
  The candidates of a part are the decoded texts of the nodes that its extraction rule
  visits, in the order of the visit and before the script filter.
\<close>

definition si_candidates :: "jsstring \<Rightarrow> jsstring list" where
  "si_candidates xml =
     map (\<lambda>(w, innerContent). decodeXml (si_fullText innerContent)) (exec_all m_si xml)"

definition tag_candidates :: "jsstring \<Rightarrow> jsstring \<Rightarrow> jsstring list" where
  "tag_candidates xml tagName =
     map (\<lambda>(w, openTag, text). decodeXml text) (exec_all (m_tag tagName) xml)"

definition sheet_candidate :: "jsstring \<times> unit \<Rightarrow> jsstring option" where
  "sheet_candidate h =
     (case first_match m_name (fst h) of None \<Rightarrow> None | Some (w, name) \<Rightarrow> Some (decodeXml name))"

definition sheet_candidates :: "jsstring \<Rightarrow> jsstring list" where
  "sheet_candidates xml = List.map_filter sheet_candidate (exec_all m_sheet xml)"

definition part_candidates :: "(jsstring \<Rightarrow> bool) \<Rightarrow> jsstring \<Rightarrow> package \<Rightarrow> jsstring list" where
  "part_candidates sel tagName z =
     concat (map (\<lambda>(path, xml). if sel path then tag_candidates xml tagName else []) z)"

definition candidates :: "package \<Rightarrow> jsstring list" where
  "candidates z =
     (case map_of z (str ''xl/sharedStrings.xml'') of
        Some xml \<Rightarrow> si_candidates xml | None \<Rightarrow> [])
     @ part_candidates is_worksheet (str ''t'') z
     @ part_candidates is_drawing (str ''a:t'') z
     @ part_candidates is_chart (str ''a:t'') z
     @ (case map_of z (str ''xl/workbook.xml'') of
          Some xml \<Rightarrow> sheet_candidates xml | None \<Rightarrow> [])"

subsection \<open>Recognised parts\<close>




subsection \<open>Service replies\<close>

text \<open>The two tests that \<open>translateBatch\<close> makes on a rejected call, and the attempts that
  a call reaches: attempt \<open>a\<close> is made when every attempt before it met a transient error.\<close>

definition quota_exhausted :: "api_error \<Rightarrow> bool" where
  "quota_exhausted e \<longleftrightarrow>
     js_includes (err_body e) (str ''RESOURCE_EXHAUSTED'')
     \<or> err_code e = StrCode (str ''RESOURCE_EXHAUSTED'')"

definition transient :: "api_error \<Rightarrow> bool" where
  "transient e \<longleftrightarrow>
     \<not> quota_exhausted e
     \<and> (js_includes (err_body e) (str ''429'') \<or> err_code e = NumCode 429
          \<or> err_code e = NumCode 503)"

definition reached :: "(nat \<Rightarrow> reply) \<Rightarrow> nat \<Rightarrow> bool" where
  "reached svc a \<longleftrightarrow>
     a \<le> maxRetries
     \<and> list_all (\<lambda>b. case svc b of Rejects e \<Rightarrow> transient e | Resolves t p \<Rightarrow> False) [0..<a]"

text \<open>The ids that the items of a parsed response carry.\<close>

definition ids :: "item option list \<Rightarrow> jsstring set" where
  "ids its = {k. \<exists>i. Some i \<in> set its \<and> item_id i = Some k}"

subsection \<open>Batches\<close>


definition chunk_of :: "jsstring list \<Rightarrow> nat \<Rightarrow> jsstring list" where
  "chunk_of allStrings i = slice allStrings (i * BATCH_SIZE) (i * BATCH_SIZE + BATCH_SIZE)"



subsection \<open>The identity translation\<close>


subsection \<open>Sample data\<close>

definition konnichiwa :: jsstring where
  "konnichiwa = [0x3053, 0x3093, 0x306B, 0x3061, 0x306F]"

definition shiito1 :: jsstring where
  "shiito1 = [0x30B7, 0x30FC, 0x30C8, 0x31]"

definition sekkeisho :: jsstring where
  "sekkeisho = [0x8A2D, 0x8A08, 0x66F8]"

definition goukei42 :: jsstring where
  "goukei42 = [0x5408, 0x8A08] @ str '': 42''"

text \<open>A package with one shared string, five inline strings in a worksheet, a style part
  and one sheet name.\<close>

definition sample_shared :: jsstring where
  "sample_shared = str ''<sst><si><t>'' @ konnichiwa @ str ''</t></si></sst>''"

definition sample_sheet :: jsstring where
  "sample_sheet =
     str ''<is><t>Sheet1</t></is><is><t>123</t></is><is><t>Total: 42</t></is><is><t>''
     @ sekkeisho @ str ''</t></is><is><t>'' @ goukei42 @ str ''</t></is>''"

definition sample_tag :: jsstring where
  "sample_tag = str ''<sheet name=\"'' @ shiito1 @ str ''\" sheetId=\"1\"/>''"

definition sample_workbook :: jsstring where
  "sample_workbook = str ''<sheets>'' @ sample_tag @ str ''</sheets>''"

definition sample :: package where
  "sample =
     [(str ''xl/sharedStrings.xml'', sample_shared),
      (str ''xl/worksheets/sheet1.xml'', sample_sheet),
      (str ''xl/styles.xml'', str ''<styleSheet><t>'' @ konnichiwa @ str ''</t></styleSheet>''),
      (str ''xl/workbook.xml'', sample_workbook)]"


definition long_name :: jsstring where
  "long_name = str ''Q1/Q2: plan [draft] for the whole fiscal year?''"

definition long_map :: "(jsstring \<times> jsstring) list" where
  "long_map = [(shiito1, long_name)]"

definition kanji :: jsstring where
  "kanji = [0x6F22, 0x5B57]"

definition kana :: jsstring where
  "kana = [0x30AB, 0x30F3, 0x30B8]"

text \<open>A string item as spreadsheet programs write it: the phonetic run carries the
  attributes \<open>sb\<close> and \<open>eb\<close>.\<close>

definition furigana_item :: jsstring where
  "furigana_item =
     str ''<sst><si><r><t>'' @ kanji @ str ''</t></r><rPh sb=\"0\" eb=\"2\"><t>'' @ kana
     @ str ''</t></rPh></si></sst>''"

text \<open>A service that meets its rate limit twice and then answers with one usable item.\<close>

definition busy_service :: "nat \<Rightarrow> reply" where
  "busy_service a =
     (if a < 2 then Rejects \<lparr>err_body = str ''{\"code\":429}'', err_code = NumCode 429\<rparr>
      else Resolves (Some (str ''[{\"id\":\"1\",\"translatedText\":\"Sheet1\"},null,{\"id\":\"7\"}]''))
             (Items [Some \<lparr>item_id = Some (str ''1''), translatedText = Some (str ''Sheet1'')\<rparr>,
                     None,
                     Some \<lparr>item_id = Some (str ''7''), translatedText = None\<rparr>]))"

text \<open>Twenty-one strings of one hiragana letter each, a package that holds them as inline
  strings, and a service that answers the first batch and reports an exhausted quota on the
  second.\<close>

definition many :: "jsstring list" where
  "many = map (\<lambda>i. [0x3042 + of_nat i]) [0..<21]"


definition quota_env :: env where
  "quota_env =
     \<lparr>api_key = True,
      service = (\<lambda>i a.
        if i = 0 then
          Resolves (Some (str ''[{\"id\":\"0\",\"translatedText\":\"A\"}]''))
            (Items [Some \<lparr>item_id = Some (str ''0''), translatedText = Some (str ''A'')\<rparr>])
        else
          Rejects \<lparr>err_body = str ''{\"error\":{\"code\":429,\"status\":\"RESOURCE_EXHAUSTED\"}}'',
                   err_code = NumCode 429\<rparr>)\<rparr>"







text \<open>A service that answers with text that is not JSON, and one that answers with an
  empty text.\<close>

definition garbled_service :: "nat \<Rightarrow> reply" where
  "garbled_service a = Resolves (Some (str ''<html>'')) SyntaxError"

definition empty_service :: "nat \<Rightarrow> reply" where
  "empty_service a = Resolves (Some []) SyntaxError"

section \<open>Properties\<close>

subsection \<open>Script filter\<close>

lemma set_Set_add: "set (Set_add us x) = insert x (set us)"
  by (auto simp: Set_add_def)

lemma hasJapanese_Nil: "\<not> hasJapanese []"
  by (simp add: hasJapanese_def)

lemma nonempty_hasJapanese: "(d \<noteq> [] \<and> hasJapanese d) = hasJapanese d"
  using hasJapanese_Nil by auto

lemma set_fold_add:
  "set (fold (\<lambda>h us. if hasJapanese (f h) then Set_add us (f h) else us) hs us)
     = set us \<union> {d \<in> f ` set hs. hasJapanese d}"
  by (induction hs arbitrary: us) (auto simp: set_Set_add)

lemma set_fold_add_opt:
  "set (fold (\<lambda>h us. case g h of None \<Rightarrow> us
                       | Some d \<Rightarrow> if hasJapanese d then Set_add us d else us) hs us)
     = set us \<union> {d \<in> set (List.map_filter g hs). hasJapanese d}"
  by (induction hs arbitrary: us) (auto simp: set_Set_add map_filter_simps split: option.splits)

lemma set_extractFromTag:
  "set (extractFromTag xml tagName us)
     = set us \<union> {d \<in> set (tag_candidates xml tagName). hasJapanese d}"
proof -
  have eq: "(\<lambda>(w, openTag, text) us.
             let decoded = decodeXml text
             in if decoded \<noteq> [] \<and> hasJapanese decoded then Set_add us decoded else us)
      = (\<lambda>h us. if hasJapanese ((\<lambda>(w, openTag, text). decodeXml text) h)
                 then Set_add us ((\<lambda>(w, openTag, text). decodeXml text) h) else us)"
    by (auto simp: fun_eq_iff Let_def nonempty_hasJapanese)
  show ?thesis
    unfolding extractFromTag_def tag_candidates_def eq by (simp only: set_fold_add set_map)
qed

lemma set_extractFromSharedStrings:
  "set (extractFromSharedStrings xml us)
     = set us \<union> {d \<in> set (si_candidates xml). hasJapanese d}"
proof -
  have eq: "(\<lambda>(w, innerContent) us.
             let decoded = decodeXml (si_fullText innerContent)
             in if decoded \<noteq> [] \<and> hasJapanese decoded then Set_add us decoded else us)
      = (\<lambda>h us. if hasJapanese ((\<lambda>(w, innerContent). decodeXml (si_fullText innerContent)) h)
                 then Set_add us ((\<lambda>(w, innerContent). decodeXml (si_fullText innerContent)) h)
                 else us)"
    by (auto simp: fun_eq_iff Let_def nonempty_hasJapanese)
  show ?thesis
    unfolding extractFromSharedStrings_def si_candidates_def eq
    by (simp only: set_fold_add set_map)
qed

lemma set_extractFromSheetNames:
  "set (extractFromSheetNames xml us)
     = set us \<union> {d \<in> set (sheet_candidates xml). hasJapanese d}"
proof -
  have eq: "(\<lambda>(tagContent, u) us.
             case first_match m_name tagContent of
               None \<Rightarrow> us
             | Some (w, name) \<Rightarrow>
                 let decoded = decodeXml name
                 in if hasJapanese decoded then Set_add us decoded else us)
     = (\<lambda>h us. case sheet_candidate h of None \<Rightarrow> us
                       | Some d \<Rightarrow> if hasJapanese d then Set_add us d else us)"
    by (auto simp: fun_eq_iff Let_def sheet_candidate_def split: option.splits)
  show ?thesis
    unfolding extractFromSheetNames_def sheet_candidates_def eq by (rule set_fold_add_opt)
qed

lemma set_extract_parts:
  "set (extract_parts sel tagName z us)
     = set us \<union> {d \<in> set (part_candidates sel tagName z). hasJapanese d}"
  unfolding extract_parts_def part_candidates_def
  by (induction z arbitrary: us) (auto simp: set_extractFromTag split: if_splits)

lemma set_extractStrings:
  "set (uniqueStrings (extractStrings (p\<lparr>zipfile := Some z\<rparr>)))
     = {d \<in> set (candidates z). hasJapanese d}"
  by (auto simp: extractStrings_def candidates_def Let_def set_extract_parts
      set_extractFromSheetNames set_extractFromSharedStrings split: option.splits)

text \<open>
  Claim C8. Of the candidates that the five extraction rules produce from a package, exactly
  those with at least one code unit in the Japanese ranges are in the set of unique strings;
  the set holds nothing but candidates, and never the empty string.
\<close>

theorem script_filter:
  "(\<forall>d \<in> set (candidates z).
      d \<in> set (uniqueStrings (extractStrings (p\<lparr>zipfile := Some z\<rparr>)))
        \<longleftrightarrow> (\<exists>c \<in> set d. japanese c))
   \<and> set (uniqueStrings (extractStrings (p\<lparr>zipfile := Some z\<rparr>))) \<subseteq> set (candidates z)
   \<and> [] \<notin> set (uniqueStrings (extractStrings (p\<lparr>zipfile := Some z\<rparr>)))"
  unfolding set_extractStrings using hasJapanese_Nil
  by (auto simp: hasJapanese_def list_ex_iff)

theorem script_filter_witness:
  "str ''Sheet1'' \<notin> set (uniqueStrings (extractStrings (new_ExcelProcessor\<lparr>zipfile := Some sample\<rparr>)))
   \<and> str ''123'' \<notin> set (uniqueStrings (extractStrings (new_ExcelProcessor\<lparr>zipfile := Some sample\<rparr>)))
   \<and> str ''Total: 42'' \<notin> set (uniqueStrings (extractStrings (new_ExcelProcessor\<lparr>zipfile := Some sample\<rparr>)))
   \<and> sekkeisho \<in> set (uniqueStrings (extractStrings (new_ExcelProcessor\<lparr>zipfile := Some sample\<rparr>)))
   \<and> goukei42 \<in> set (uniqueStrings (extractStrings (new_ExcelProcessor\<lparr>zipfile := Some sample\<rparr>)))"
proof -
  have c: "candidates sample =
      [konnichiwa, str ''Sheet1'', str ''123'', str ''Total: 42'', sekkeisho, goukei42, shiito1]"
    by code_simp
  show ?thesis
    using script_filter [where z = sample and p = new_ExcelProcessor]
    unfolding c by (simp add: str_def japanese_def sekkeisho_def goukei42_def)
qed

subsection \<open>Frame property of rehydration\<close>

























subsection \<open>Sheet names\<close>

lemma prefix_drop: "prefix p s \<Longrightarrow> s = p @ drop (length p) s"
  by (metis append_eq_conv_conj prefixE)

lemma split_at_first_Some:
  "split_at_first lit s = Some (b, a) \<Longrightarrow> s = b @ lit @ a"
proof (induction s arbitrary: b)
  case Nil
  then show ?case by (simp split: if_splits)
next
  case (Cons c cs)
  show ?case
  proof (cases "prefix lit (c # cs)")
    case True
    then have "c # cs = lit @ drop (length lit) (c # cs)"
      by (rule prefix_drop)
    then show ?thesis using Cons.prems True by simp
  next
    case False
    then obtain b' where "split_at_first lit cs = Some (b', a)" "b = c # b'"
      using Cons.prems by auto
    then show ?thesis using Cons.IH by simp
  qed
qed

lemma m_name_Some:
  "m_name s = Some (w, v) \<Longrightarrow> w = str ''name=\"'' @ v @ str ''\"'' \<and> prefix w s"
proof -
  assume a: "m_name s = Some (w, v)"
  then have p: "prefix (str ''name=\"'') s"
    by (simp add: m_name_def split: if_splits)
  have "length (str ''name=\"'') = 6"
    by (simp add: str_def)
  with prefix_drop [OF p] have s: "s = str ''name=\"'' @ drop 6 s"
    by simp
  from a p obtain rest where sp: "split_at_first (str ''\"'') (drop 6 s) = Some (v, rest)"
    and w: "w = str ''name=\"'' @ v @ str ''\"''"
    by (auto simp: m_name_def split: option.splits if_splits)
  from split_at_first_Some [OF sp] s have "s = w @ rest"
    using w by simp
  then show ?thesis using w by (metis prefixI)
qed

lemma replace_first_Some:
  assumes "\<And>s w g. m s = Some (w, g) \<Longrightarrow> prefix w s"
  shows "first_match m s = Some (w, g) \<Longrightarrow>
         \<exists>pre post. s = pre @ w @ post \<and> replace_first m cb s = pre @ cb (w, g) @ post"
proof (induction s)
  case Nil
  then have "m [] = Some (w, g)" by simp
  with assms have "w = []" by fastforce
  then show ?case using \<open>m [] = Some (w, g)\<close> by simp
next
  case (Cons c cs)
  show ?case
  proof (cases "m (c # cs)")
    case None
    then have "first_match m cs = Some (w, g)" using Cons.prems by simp
    from Cons.IH [OF this] obtain pre post where
      "cs = pre @ w @ post" "replace_first m cb cs = pre @ cb (w, g) @ post" by blast
    then have "c # cs = (c # pre) @ w @ post \<and> replace_first m cb (c # cs) = (c # pre) @ cb (w, g) @ post"
      using None by simp
    then show ?thesis by blast
  next
    case (Some h)
    then have h: "h = (w, g)" using Cons.prems by simp
    with Some assms have "prefix w (c # cs)" by blast
    then have "c # cs = [] @ w @ drop (length w) (c # cs)"
      using prefix_drop by fastforce
    moreover have "replace_first m cb (c # cs) = [] @ cb (w, g) @ drop (length w) (c # cs)"
      using Some h by simp
    ultimately show ?thesis by blast
  qed
qed

lemma sheet_callback_hit:
  assumes "first_match m_name sheetTag = Some (match, raw)"
    and "map_of tm (decodeXml raw) = Some translated"
  shows "\<exists>pre post. sheetTag = pre @ str ''name=\"'' @ raw @ str ''\"'' @ post
           \<and> sheet_callback tm (sheetTag, u)
               = pre @ str ''name=\"'' @ escapeXml (sanitize translated) @ str ''\"'' @ post"
proof -
  have wf: "\<And>s w g. m_name s = Some (w, g) \<Longrightarrow> prefix w s"
    using m_name_Some by blast
  have "\<exists>pre post. sheetTag = pre @ match @ post
      \<and> replace_first m_name (name_callback tm) sheetTag
          = pre @ name_callback tm (match, raw) @ post"
  proof (rule replace_first_Some)
    show "\<And>s w g. m_name s = Some (w, g) \<Longrightarrow> prefix w s"
      by (rule wf)
    show "first_match m_name sheetTag = Some (match, raw)"
      by (rule assms(1))
  qed
  then obtain pre post where d: "sheetTag = pre @ match @ post"
    "replace_first m_name (name_callback tm) sheetTag = pre @ name_callback tm (match, raw) @ post"
    by blast
  have "\<exists>s. m_name s = Some (match, raw)"
    using assms(1) by (induction sheetTag) (auto split: option.splits)
  then have m: "match = str ''name=\"'' @ raw @ str ''\"''"
    using m_name_Some by blast
  have "name_callback tm (match, raw) = str ''name=\"'' @ escapeXml (sanitize translated) @ str ''\"''"
    using assms(2) by (simp add: name_callback_def)
  then show ?thesis
    using d m by (auto simp: sheet_callback_def)
qed

lemma replace_g_class:
  "replace_g (m_class P) cb s = concat (map (\<lambda>c. if P c then cb ([c], c) else [c]) s)"
  by (induction s) (simp_all add: replace_g_def m_class_def render_def)

lemma escape_char_plain: "\<not> xml_special c \<Longrightarrow> escape_char c = [c]"
  by (simp add: escape_char_def xml_special_def)

lemma escapeXml_concat: "escapeXml s = concat (map escape_char s)"
proof -
  have "(\<lambda>c. if xml_special c then (\<lambda>(w, c). escape_char c) ([c], c) else [c]) = escape_char"
    by (auto simp: fun_eq_iff escape_char_plain)
  then show ?thesis
    by (simp add: escapeXml_def replace_g_class)
qed

lemma sanitize_map:
  "sanitize t = take 31 (map (\<lambda>c. if forbidden c then 0x5F else c) t)"
proof -
  have "concat (map (\<lambda>c. if forbidden c then str ''_'' else [c]) t)
          = map (\<lambda>c. if forbidden c then 0x5F else c) t"
    by (induction t) (simp_all add: str_def)
  then show ?thesis
    by (simp add: sanitize_def replace_g_class)
qed

lemma sanitize_length: "length (sanitize t) \<le> 31"
  by (simp add: sanitize_map)

lemma sanitize_clean: "c \<in> set (sanitize t) \<Longrightarrow> \<not> forbidden c"
proof -
  assume "c \<in> set (sanitize t)"
  then have "c \<in> set (map (\<lambda>c. if forbidden c then 0x5F else c) t)"
    unfolding sanitize_map by (rule in_set_takeD)
  then show ?thesis
    by (auto simp: forbidden_def split: if_splits)
qed

lemma filter_forbidden_escape_char:
  "filter forbidden (escape_char c) = (if forbidden c then [c] else [])"
  by (simp add: escape_char_def forbidden_def str_def)

lemma filter_forbidden_escapeXml: "filter forbidden (escapeXml t) = filter forbidden t"
  unfolding escapeXml_concat
  by (induction t) (simp_all add: filter_forbidden_escape_char)

lemma length_escape_char: "1 \<le> length (escape_char c)"
  by (simp add: escape_char_def str_def)

lemma length_escapeXml: "length t \<le> length (escapeXml t)"
  unfolding escapeXml_concat
proof (induction t)
  case Nil
  then show ?case by simp
next
  case (Cons c t)
  then show ?case using length_escape_char [of c] by simp
qed

lemma escaped_sanitized_clean: "c \<in> set (escapeXml (sanitize t)) \<Longrightarrow> \<not> forbidden c"
proof -
  have "filter forbidden (escapeXml (sanitize t)) = []"
    unfolding filter_forbidden_escapeXml using sanitize_clean by (auto simp: filter_empty_conv)
  then show "c \<in> set (escapeXml (sanitize t)) \<Longrightarrow> \<not> forbidden c"
    by (simp add: filter_empty_conv)
qed

text \<open>
  Claim C5. When the first \<open>name\<close> attribute of a sheet tag decodes to a key of the
  translation map, the tag is rewritten with the translation in which each of the characters
  \<open>\ / ? * [ ] :\<close> is replaced by \<open>_\<close> and which is then cut to 31 code units; that
  name has no forbidden character and at most 31 code units. The rewrites of text nodes and
  of shared-string items write the translation as it is: escaping keeps every forbidden
  character and never shortens.
\<close>

theorem sheet_name_sanitization:
  assumes "first_match m_name sheetTag = Some (match, raw)"
    and "map_of tm (decodeXml raw) = Some translated"
  shows "(\<exists>pre post. sheetTag = pre @ str ''name=\"'' @ raw @ str ''\"'' @ post
            \<and> sheet_callback tm (sheetTag, u)
                = pre @ str ''name=\"'' @ escapeXml (sanitize translated) @ str ''\"'' @ post)
       \<and> sanitize translated = take 31 (map (\<lambda>c. if forbidden c then 0x5F else c) translated)
       \<and> length (sanitize translated) \<le> 31
       \<and> (\<forall>c \<in> set (sanitize translated). \<not> forbidden c)
       \<and> (\<forall>c \<in> set (escapeXml (sanitize translated)). \<not> forbidden c)
       \<and> tag_callback tm tagName (whole, openTag, raw)
           = openTag @ escapeXml translated @ str ''</'' @ tagName @ str ''>''
       \<and> (si_fullText inner = raw \<longrightarrow>
            si_callback tm (whole, inner) = str ''<si><t>'' @ escapeXml translated @ str ''</t></si>'')
       \<and> filter forbidden (escapeXml translated) = filter forbidden translated
       \<and> length translated \<le> length (escapeXml translated)"
  using sheet_callback_hit [OF assms] assms(2) sanitize_clean escaped_sanitized_clean
  by (simp add: tag_callback_def si_callback_def sanitize_length
      filter_forbidden_escapeXml length_escapeXml sanitize_map [symmetric])

theorem sheet_name_sanitization_witness:
  "sanitize long_name = str ''Q1_Q2_ plan _draft_ for the who''
   \<and> length (sanitize long_name) \<le> 31
   \<and> \<not> list_ex forbidden (sanitize long_name)
   \<and> replaceSheetNames long_map (str ''<sheets>'' @ sample_tag @ str ''</sheets>'')
       = str ''<sheets><sheet name=\"Q1_Q2_ plan _draft_ for the who\" sheetId=\"1\"/></sheets>''
   \<and> tag_callback long_map (str ''t'') (str ''<t>'' @ shiito1 @ str ''</t>'', str ''<t>'', shiito1)
       = str ''<t>'' @ escapeXml long_name @ str ''</'' @ str ''t'' @ str ''>''
   \<and> si_callback long_map
        (str ''<si><t>'' @ shiito1 @ str ''</t></si>'', str ''<t>'' @ shiito1 @ str ''</t>'')
       = str ''<si><t>'' @ escapeXml long_name @ str ''</t></si>''
   \<and> escapeXml long_name = long_name"
proof -
  have h1: "first_match m_name sample_tag = Some (str ''name=\"'' @ shiito1 @ str ''\"'', shiito1)"
    by code_simp
  have h2: "map_of long_map (decodeXml shiito1) = Some long_name"
    by code_simp
  have e1: "sanitize long_name = str ''Q1_Q2_ plan _draft_ for the who''"
    by code_simp
  have e2: "replaceSheetNames long_map (str ''<sheets>'' @ sample_tag @ str ''</sheets>'')
       = str ''<sheets><sheet name=\"Q1_Q2_ plan _draft_ for the who\" sheetId=\"1\"/></sheets>''"
    by code_simp
  have e3: "escapeXml long_name = long_name"
    by code_simp
  have h3: "si_fullText (str ''<t>'' @ shiito1 @ str ''</t>'') = shiito1"
    by code_simp
  from sheet_name_sanitization
    [where whole = "str ''<si><t>'' @ shiito1 @ str ''</t></si>''"
       and inner = "str ''<t>'' @ shiito1 @ str ''</t>''", OF h1 h2] h3
  have si: "si_callback long_map
        (str ''<si><t>'' @ shiito1 @ str ''</t></si>'', str ''<t>'' @ shiito1 @ str ''</t>'')
       = str ''<si><t>'' @ escapeXml long_name @ str ''</t></si>''"
    by blast
  from sheet_name_sanitization
    [where tagName = "str ''t''" and whole = "str ''<t>'' @ shiito1 @ str ''</t>''"
       and openTag = "str ''<t>''", OF h1 h2]
  have "length (sanitize long_name) \<le> 31
      \<and> \<not> list_ex forbidden (sanitize long_name)
      \<and> tag_callback long_map (str ''t'') (str ''<t>'' @ shiito1 @ str ''</t>'', str ''<t>'', shiito1)
        = str ''<t>'' @ escapeXml long_name @ str ''</'' @ str ''t'' @ str ''>''"
    unfolding list_ex_iff by blast
  then show ?thesis
    using e1 e2 e3 si by blast
qed

subsection \<open>Phonetic guides\<close>

text \<open>
  Claim C7. The removal of phonetic guides matches \<open><rPh>\<close> without attributes only. On a
  string item whose phonetic run carries attributes the run is not removed, and its text is
  part of the candidate.
\<close>

theorem phonetic_run_with_attributes_kept:
  "si_candidates furigana_item = [kanji @ kana]
   \<and> extractFromSharedStrings furigana_item [] = [kanji @ kana]"
  by code_simp

subsection \<open>The translation collaborator\<close>

lemma reached_iff:
  "reached svc a \<longleftrightarrow> a \<le> maxRetries \<and> (\<forall>b < a. \<exists>e. svc b = Rejects e \<and> transient e)"
proof -
  have "(case svc b of Rejects e \<Rightarrow> transient e | Resolves t p \<Rightarrow> False)
          \<longleftrightarrow> (\<exists>e. svc b = Rejects e \<and> transient e)" for b
    by (cases "svc b") auto
  then show ?thesis
    by (auto simp: reached_def list_all_iff)
qed

lemma length_map_back: "length (map_back texts m) = length texts"
  by (simp add: map_back_def)

lemma attempts_length: "attempts svc texts a = Inr ys \<Longrightarrow> length ys = length texts"
proof (induction n \<equiv> "Suc maxRetries - a" arbitrary: a)
  case 0
  then have "\<not> a \<le> maxRetries" by simp
  then have "attempts svc texts a = Inr texts"
    by (subst attempts.simps) simp
  with "0.prems" show ?case by simp
next
  case (Suc n)
  then have le: "a \<le> maxRetries" by simp
  have next_ok: "attempts svc texts (a + 1) = Inr ys \<Longrightarrow> length ys = length texts"
    using Suc.hyps(1) [of "a + 1"] Suc.hyps(2) by simp
  from Suc.prems have
    "(case svc a of
           Resolves jsonText p \<Rightarrow>
             if jsonText = None \<or> jsonText = Some [] then Inl EmptyResponse
             else (case p of
                     SyntaxError \<Rightarrow> Inr texts
                   | NotArray \<Rightarrow> Inr texts
                   | Items its \<Rightarrow> Inr (map_back texts (collect its)))
         | Rejects e \<Rightarrow>
             let isQuotaExhausted =
                   (js_includes (err_body e) (str ''RESOURCE_EXHAUSTED'')
                    \<or> err_code e = StrCode (str ''RESOURCE_EXHAUSTED''));
                 isRateLimit = (js_includes (err_body e) (str ''429'') \<or> err_code e = NumCode 429);
                 isOverloaded = (err_code e = NumCode 503)
             in if isQuotaExhausted then Inl QuotaExceeded
                else if (isRateLimit \<or> isOverloaded) \<and> a < maxRetries
                     then attempts svc texts (a + 1)
                else if isRateLimit then Inl RateLimitExceeded
                else Inl (Upstream e)) = Inr ys"
    using le by (subst (asm) attempts.simps) simp
  then show ?case
    using next_ok
    by (auto simp: Let_def length_map_back split: if_splits reply.splits parsed.splits)
qed

lemma attempts_retry:
  "a < maxRetries \<Longrightarrow> svc a = Rejects e \<Longrightarrow> transient e \<Longrightarrow>
   attempts svc texts a = attempts svc texts (a + 1)"
  by (subst attempts.simps) (auto simp: transient_def quota_exhausted_def Let_def)

lemma attempts_reached:
  "reached svc a \<Longrightarrow> attempts svc texts 0 = attempts svc texts a"
proof (induction a)
  case 0
  then show ?case by simp
next
  case (Suc a)
  then have r: "reached svc a" and "a < maxRetries"
    by (auto simp: reached_iff)
  moreover obtain e where "svc a = Rejects e" "transient e"
    using Suc.prems by (auto simp: reached_iff)
  ultimately show ?case
    using Suc.IH attempts_retry [of a svc e texts] by simp
qed

lemma attempts_resolves:
  "a \<le> maxRetries \<Longrightarrow> svc a = Resolves jsonText p \<Longrightarrow>
   attempts svc texts a =
     (if jsonText = None \<or> jsonText = Some [] then Inl EmptyResponse
      else case p of SyntaxError \<Rightarrow> Inr texts | NotArray \<Rightarrow> Inr texts
                   | Items its \<Rightarrow> Inr (map_back texts (collect its)))"
  by (subst attempts.simps) simp

lemma fold_collect_dom:
  "fst ` set (fold (\<lambda>it m. case it of
                     None \<Rightarrow> m
                   | Some i \<Rightarrow> (case item_id i of
                                None \<Rightarrow> m
                              | Some k \<Rightarrow> AList.update k (translatedText i) m)) its m0)
     = fst ` set m0 \<union> ids its"
proof (induction its arbitrary: m0)
  case Nil
  then show ?case by (simp add: ids_def)
next
  case (Cons it its)
  have "ids (it # its) = (case it of None \<Rightarrow> {} | Some i \<Rightarrow> (case item_id i of None \<Rightarrow> {} | Some k \<Rightarrow> {k})) \<union> ids its"
    by (auto simp: ids_def split: option.splits)
  then show ?case
    using Cons.IH by (auto simp: dom_update split: option.splits)
qed

lemma collect_None: "k \<notin> ids its \<Longrightarrow> map_of (collect its) k = None"
proof -
  assume "k \<notin> ids its"
  then have "k \<notin> fst ` set (collect its)"
    unfolding collect_def fold_collect_dom by simp
  then show ?thesis by (simp add: map_of_eq_None_iff)
qed

lemma map_back_nth:
  "i < length texts \<Longrightarrow>
   map_back texts m ! i =
     (case map_of m (String_of i) of
        Some (Some t) \<Rightarrow> if t = [] then texts ! i else t
      | _ \<Rightarrow> texts ! i)"
  by (simp add: map_back_def split: option.splits)

text \<open>
  Claim C6, amended. A call of \<open>translateBatch\<close> that returns a list returns one as long
  as its input. When the reply that ends the call has a text that is not empty and is not
  parseable, or parses to something that is not an array, the input is returned unchanged.
  When it parses to an array, the entry at each index is the translation filed under that
  index, and the original string when no item has that index as its id or when the
  translation is undefined or empty. A reply whose text is missing or empty is thrown as an
  error.
\<close>

theorem collaborator_fallback:
  "(translateBatch key svc texts = Inr ys \<longrightarrow> length ys = length texts)
   \<and> (reached svc a \<and> svc a = Resolves (Some body) p \<and> body \<noteq> [] \<and> (p = SyntaxError \<or> p = NotArray)
        \<longrightarrow> translateBatch True svc texts = Inr texts)
   \<and> (reached svc a \<and> svc a = Resolves (Some body) (Items its) \<and> body \<noteq> []
        \<longrightarrow> (\<exists>zs. translateBatch True svc texts = Inr zs \<and> length zs = length texts
              \<and> (\<forall>i < length texts. String_of i \<notin> ids its \<longrightarrow> zs ! i = texts ! i)
              \<and> (\<forall>i < length texts. zs ! i =
                    (case map_of (collect its) (String_of i) of
                       Some (Some t) \<Rightarrow> if t = [] then texts ! i else t
                     | _ \<Rightarrow> texts ! i))))
   \<and> (reached svc a \<and> svc a = Resolves jsonText p \<and> (jsonText = None \<or> jsonText = Some [])
        \<longrightarrow> translateBatch True svc texts = Inl EmptyResponse)"
proof (intro conjI impI)
  assume "translateBatch key svc texts = Inr ys"
  then show "length ys = length texts"
    by (auto simp: translateBatch_def attempts_length split: if_splits)
next
  assume "reached svc a \<and> svc a = Resolves (Some body) p \<and> body \<noteq> [] \<and> (p = SyntaxError \<or> p = NotArray)"
  then show "translateBatch True svc texts = Inr texts"
    using attempts_reached [of svc a texts] attempts_resolves [of a svc "Some body" p texts]
    by (auto simp: translateBatch_def reached_iff)
next
  assume h: "reached svc a \<and> svc a = Resolves (Some body) (Items its) \<and> body \<noteq> []"
  then have "translateBatch True svc texts = Inr (map_back texts (collect its))"
    using attempts_reached [of svc a texts] attempts_resolves [of a svc "Some body" "Items its" texts]
    by (auto simp: translateBatch_def reached_iff)
  then show "\<exists>zs. translateBatch True svc texts = Inr zs \<and> length zs = length texts
              \<and> (\<forall>i < length texts. String_of i \<notin> ids its \<longrightarrow> zs ! i = texts ! i)
              \<and> (\<forall>i < length texts. zs ! i =
                    (case map_of (collect its) (String_of i) of
                       Some (Some t) \<Rightarrow> if t = [] then texts ! i else t
                     | _ \<Rightarrow> texts ! i))"
    by (simp add: length_map_back map_back_nth collect_None)
next
  assume "reached svc a \<and> svc a = Resolves jsonText p \<and> (jsonText = None \<or> jsonText = Some [])"
  then show "translateBatch True svc texts = Inl EmptyResponse"
    using attempts_reached [of svc a texts] attempts_resolves [of a svc jsonText p texts]
    by (auto simp: translateBatch_def reached_iff)
qed

text \<open>
  Claim C6 as stated fails for an empty response: its text is not parseable, and the call
  fails instead of returning its input.
\<close>

theorem empty_response_counterexample:
  "translateBatch True (\<lambda>a. Resolves (Some []) SyntaxError) [konnichiwa] = Inl EmptyResponse
   \<and> translateBatch True (\<lambda>a. Resolves (Some []) SyntaxError) [konnichiwa] \<noteq> Inr [konnichiwa]"
  by (simp add: translateBatch_def maxRetries_def attempts.simps)

theorem collaborator_fallback_witness:
  "reached busy_service 2
   \<and> (\<exists>zs. translateBatch True busy_service [konnichiwa, shiito1, sekkeisho] = Inr zs
         \<and> length zs = 3 \<and> zs ! 0 = konnichiwa)
   \<and> translateBatch True busy_service [konnichiwa, shiito1, sekkeisho]
       = Inr [konnichiwa, str ''Sheet1'', sekkeisho]
   \<and> translateBatch True garbled_service [konnichiwa, shiito1, sekkeisho]
       = Inr [konnichiwa, shiito1, sekkeisho]
   \<and> translateBatch True empty_service [konnichiwa, shiito1, sekkeisho] = Inl EmptyResponse"
proof -
  let ?its = "[Some \<lparr>item_id = Some (str ''1''), translatedText = Some (str ''Sheet1'')\<rparr>,
                     None,
                     Some \<lparr>item_id = Some (str ''7''), translatedText = None\<rparr>]"
  let ?body = "str ''[{\"id\":\"1\",\"translatedText\":\"Sheet1\"},null,{\"id\":\"7\"}]''"
  have r: "reached busy_service 2"
    by code_simp
  have s: "busy_service 2 = Resolves (Some ?body) (Items ?its)"
    by (simp add: busy_service_def)
  have t: "?body \<noteq> []"
    by (simp add: str_def)
  have n: "String_of 0 \<notin> ids ?its"
    by (auto simp: ids_def String_of.simps str_def)
  have v: "translateBatch True busy_service [konnichiwa, shiito1, sekkeisho]
       = Inr [konnichiwa, str ''Sheet1'', sekkeisho]"
    by code_simp
  let ?texts = "[konnichiwa, shiito1, sekkeisho]"
  from collaborator_fallback
    [where svc = "busy_service" and a = "2" and body = "?body" and its = "?its"
       and texts = "?texts", THEN conjunct2, THEN conjunct2, THEN conjunct1] r s t
  obtain zs where z: "translateBatch True busy_service ?texts = Inr zs"
    "length zs = length ?texts"
    "\<forall>i < length ?texts. String_of i \<notin> ids ?its \<longrightarrow> zs ! i = ?texts ! i"
    by blast
  from z(3) n have "zs ! 0 = konnichiwa"
    by simp
  with z(1,2) have "\<exists>zs. translateBatch True busy_service [konnichiwa, shiito1, sekkeisho] = Inr zs
         \<and> length zs = 3 \<and> zs ! 0 = konnichiwa"
    by simp
  have g: "reached garbled_service 0" "garbled_service 0 = Resolves (Some (str ''<html>'')) SyntaxError"
    "str ''<html>'' \<noteq> []"
    by (simp_all add: reached_def garbled_service_def str_def)
  from collaborator_fallback
    [where svc = "garbled_service" and a = "0" and body = "str ''<html>''" and p = SyntaxError
       and texts = "?texts", THEN conjunct2, THEN conjunct1] g
  have gr: "translateBatch True garbled_service [konnichiwa, shiito1, sekkeisho]
       = Inr [konnichiwa, shiito1, sekkeisho]"
    by blast
  have m: "reached empty_service 0" "empty_service 0 = Resolves (Some []) SyntaxError"
    by (simp_all add: reached_def empty_service_def)
  from collaborator_fallback
    [where svc = "empty_service" and a = "0" and jsonText = "Some []" and p = SyntaxError
       and texts = "?texts", THEN conjunct2, THEN conjunct2, THEN conjunct2] m
  have er: "translateBatch True empty_service [konnichiwa, shiito1, sekkeisho] = Inl EmptyResponse"
    by blast
  from \<open>\<exists>zs. translateBatch True busy_service [konnichiwa, shiito1, sekkeisho] = Inr zs
         \<and> length zs = 3 \<and> zs ! 0 = konnichiwa\<close> r v gr er
  show ?thesis by blast
qed

subsection \<open>Batches\<close>












subsection \<open>Positional assignment\<close>

lemma translateBatch_length:
  "translateBatch key svc texts = Inr ys \<Longrightarrow> length ys = length texts"
  by (auto simp: translateBatch_def attempts_length split: if_splits)

lemma update_fresh: "k \<notin> fst ` set al \<Longrightarrow> AList.update k v al = al @ [(k, v)]"
  by (induction al) auto

lemma fold_store_fresh:
  "distinct chunk \<Longrightarrow> set chunk \<inter> fst ` set tm = {} \<Longrightarrow> n + length chunk \<le> length tr \<Longrightarrow>
   fold (\<lambda>(original, index) tm. AList.update original (tr ! index) tm)
        (zip chunk [n..<n + length chunk]) tm
     = tm @ zip chunk (drop n tr)"
proof (induction chunk arbitrary: n tm)
  case Nil
  then show ?case by simp
next
  case (Cons c cs)
  have u: "[n..<n + length (c # cs)] = n # [Suc n..<Suc n + length cs]"
    by (subst upt_rec) simp
  have d: "drop n tr = tr ! n # drop (Suc n) tr"
    using Cons.prems(3) by (simp add: Cons_nth_drop_Suc)
  have f: "AList.update c (tr ! n) tm = tm @ [(c, tr ! n)]"
    using Cons.prems(2) by (simp add: update_fresh)
  have "set cs \<inter> fst ` set (tm @ [(c, tr ! n)]) = {}"
    using Cons.prems(1,2) by auto
  then have "fold (\<lambda>(original, index) tm. AList.update original (tr ! index) tm)
        (zip cs [Suc n..<Suc n + length cs]) (tm @ [(c, tr ! n)])
     = (tm @ [(c, tr ! n)]) @ zip cs (drop (Suc n) tr)"
    using Cons.IH [of "tm @ [(c, tr ! n)]" "Suc n"] Cons.prems(1,3) by simp
  then show ?case
    unfolding u d by (simp add: f)
qed

lemma store_chunk_fresh:
  "distinct chunk \<Longrightarrow> set chunk \<inter> fst ` set tm = {} \<Longrightarrow> length chunk \<le> length tr \<Longrightarrow>
   store_chunk chunk tr tm = tm @ zip chunk tr"
  using fold_store_fresh [of chunk tm 0 tr] by (simp add: store_chunk_def)

lemma chunk_of_subset: "set (chunk_of xs i) \<subseteq> set (drop (i * BATCH_SIZE) xs)"
  by (simp add: chunk_of_def slice_def set_take_subset)

lemma chunk_of_distinct: "distinct xs \<Longrightarrow> distinct (chunk_of xs i)"
  by (simp add: chunk_of_def slice_def)

lemma take_drop_disjoint:
  "distinct ys \<Longrightarrow> set (take m ys) \<inter> set (drop m ys) = {}"
  by (metis append_take_drop_id distinct_append)

lemma chunk_of_later:
  "distinct xs \<Longrightarrow> set (chunk_of xs i) \<inter> set (drop ((i + 1) * BATCH_SIZE) xs) = {}"
proof -
  assume d: "distinct xs"
  have "set (take BATCH_SIZE (drop (i * BATCH_SIZE) xs))
          \<inter> set (drop BATCH_SIZE (drop (i * BATCH_SIZE) xs)) = {}"
    by (rule take_drop_disjoint) (simp add: d)
  then show ?thesis
    by (simp add: chunk_of_def slice_def add.commute)
qed

lemma batch_body_success:
  assumes "translateBatch (api_key e) (service e i) (chunk_of xs i) = Inr tr"
  shows "batch_body e xs n i r =
     r\<lparr>progress := progress r @ [translating i n], calls := calls r @ [chunk_of xs i],
       proc := (proc r)\<lparr>translationMap := store_chunk (chunk_of xs i) tr (translationMap (proc r))\<rparr>\<rparr>"
  using assms by (simp add: batch_body_def Let_def chunk_of_def)


text \<open>
  Claim C4. In a round whose call succeeds, the translation map is extended by one entry per
  string of the batch, the string at index \<open>j\<close> mapped to the collaborator's output at
  index \<open>j\<close>; its size grows by the size of the batch, and every earlier entry stays as it
  was. The unique strings are distinct, and the keys of the map are not among the strings of
  this and the later batches; the same holds again at the start of the next round.
\<close>

theorem positional_assignment:
  assumes "translateBatch (api_key e) (service e i) (chunk_of xs i) = Inr tr"
    and "distinct xs"
    and "distinct (map fst (translationMap (proc r)))"
    and "fst ` set (translationMap (proc r)) \<inter> set (drop (i * BATCH_SIZE) xs) = {}"
  shows "translationMap (proc (batch_body e xs n i r))
           = translationMap (proc r) @ zip (chunk_of xs i) tr
       \<and> length tr = length (chunk_of xs i)
       \<and> (\<forall>j < length (chunk_of xs i).
             map_of (translationMap (proc (batch_body e xs n i r))) (chunk_of xs i ! j) = Some (tr ! j))
       \<and> length (translationMap (proc (batch_body e xs n i r)))
           = length (translationMap (proc r)) + length (chunk_of xs i)
       \<and> (\<forall>k v. map_of (translationMap (proc r)) k = Some v
             \<longrightarrow> map_of (translationMap (proc (batch_body e xs n i r))) k = Some v)
       \<and> distinct (map fst (translationMap (proc (batch_body e xs n i r))))
       \<and> fst ` set (translationMap (proc (batch_body e xs n i r)))
           \<inter> set (drop ((i + 1) * BATCH_SIZE) xs) = {}"
proof -
  let ?c = "chunk_of xs i"
  let ?tm = "translationMap (proc r)"
  let ?tm' = "translationMap (proc (batch_body e xs n i r))"
  have len: "length tr = length ?c"
    using assms(1) by (rule translateBatch_length)
  have dc: "distinct ?c"
    using assms(2) by (rule chunk_of_distinct)
  have fresh: "set ?c \<inter> fst ` set ?tm = {}"
    using assms(4) chunk_of_subset [of xs i] by blast
  have eq: "?tm' = ?tm @ zip ?c tr"
    using batch_body_success [OF assms(1)] store_chunk_fresh [OF dc fresh] len by simp
  have keys: "map fst ?tm' = map fst ?tm @ ?c"
    unfolding eq using len by simp
  have pos: "\<forall>j < length ?c. map_of ?tm' (?c ! j) = Some (tr ! j)"
  proof (intro allI impI)
    fix j assume j: "j < length ?c"
    then have "?c ! j \<in> set ?c"
      by simp
    then have "?c ! j \<notin> fst ` set ?tm"
      using fresh by blast
    then have "map_of ?tm (?c ! j) = None"
      by (simp add: map_of_eq_None_iff)
    moreover have "map_of (zip ?c tr) (?c ! j) = Some (tr ! j)"
      using dc len j by (simp add: map_of_zip_nth)
    ultimately show "map_of ?tm' (?c ! j) = Some (tr ! j)"
      unfolding eq by (simp add: map_add_def)
  qed
  have keep: "\<forall>k v. map_of ?tm k = Some v \<longrightarrow> map_of ?tm' k = Some v"
    unfolding eq by (simp add: map_add_def)
  have dist: "distinct (map fst ?tm')"
    unfolding keys using assms(3) dc fresh by auto
  have later: "fst ` set ?tm' \<inter> set (drop ((i + 1) * BATCH_SIZE) xs) = {}"
  proof -
    have "set (drop ((i + 1) * BATCH_SIZE) xs) \<subseteq> set (drop (i * BATCH_SIZE) xs)"
      by (rule set_drop_subset_set_drop) simp
    then have "fst ` set ?tm \<inter> set (drop ((i + 1) * BATCH_SIZE) xs) = {}"
      using assms(4) by blast
    moreover have "set (map fst ?tm') = set (map fst ?tm @ ?c)"
      by (simp only: keys)
    then have "fst ` set ?tm' = fst ` set ?tm \<union> set ?c"
      by simp
    ultimately show ?thesis
      using chunk_of_later [OF assms(2), of i] by blast
  qed
  have size: "length ?tm' = length ?tm + length ?c"
    unfolding eq using len by simp
  show ?thesis
    by (intro conjI; fact)
qed

theorem positional_assignment_witness:
  "translationMap (proc (batch_body quota_env many 2 0
        \<lparr>proc = new_ExcelProcessor, progress = [], calls = [], thrown = None\<rparr>))
     = zip (chunk_of many 0) (str ''A'' # tl (chunk_of many 0))
   \<and> length (translationMap (proc (batch_body quota_env many 2 0
        \<lparr>proc = new_ExcelProcessor, progress = [], calls = [], thrown = None\<rparr>))) = 20"
proof -
  let ?r = "\<lparr>proc = new_ExcelProcessor, progress = [], calls = [], thrown = None\<rparr>"
  have h1: "translateBatch (api_key quota_env) (service quota_env 0) (chunk_of many 0)
              = Inr (str ''A'' # tl (chunk_of many 0))"
    by code_simp
  have h2: "distinct many"
    by code_simp
  have h3: "distinct (map fst (translationMap (proc ?r)))"
    by (simp add: new_ExcelProcessor_def)
  have h4: "fst ` set (translationMap (proc ?r)) \<inter> set (drop (0 * BATCH_SIZE) many) = {}"
    by (simp add: new_ExcelProcessor_def)
  have l: "length (chunk_of many 0) = 20"
    by code_simp
  have t: "translationMap (proc ?r) = []"
    by (simp add: new_ExcelProcessor_def)
  from positional_assignment [where n = 2, OF h1 h2 h3 h4]
  have "translationMap (proc (batch_body quota_env many 2 0 ?r))
          = translationMap (proc ?r) @ zip (chunk_of many 0) (str ''A'' # tl (chunk_of many 0))"
    and "length (translationMap (proc (batch_body quota_env many 2 0 ?r)))
          = length (translationMap (proc ?r)) + length (chunk_of many 0)"
    by blast+
  then show ?thesis
    unfolding t l by simp
qed

subsection \<open>Abort on an exhausted quota\<close>





















subsection \<open>Escaping and decoding\<close>






lemma js_includes_Cons: "\<not> js_includes (c # cs) pat \<Longrightarrow> \<not> prefix pat (c # cs) \<and> \<not> js_includes cs pat"
  by simp















subsection \<open>Round trip with the identity translation\<close>



















end
